theory Spec2Isabelle
  imports Complex_Main "HOL-Library.Char_ord" "HOL-Library.List_Lexorder" "HOL-Library.Sublist"
    "HOL-Library.Log_Nat"
begin

section \<open>Python strings\<close>

text \<open>
  A Python \<open>str\<close> is a sequence of code points. It is modelled as a \<open>string\<close> in which
  every \<open>char\<close> stands for one code point in the range 0..255 (Latin-1), so that
  \<open>length\<close> is Python's \<open>len\<close>. The character classes below are the ones CPython uses,
  restricted to that range.
\<close>

definition code :: "char \<Rightarrow> nat" where
  "code c = of_char c"

text \<open>\<open>str.isspace\<close> on one code point below 256.\<close>

definition isspace :: "char \<Rightarrow> bool" where
  "isspace c = (let n = code c in
     (9 \<le> n \<and> n \<le> 13) \<or> (28 \<le> n \<and> n \<le> 32) \<or> n = 133 \<or> n = 160)"

text \<open>The line boundaries of \<open>str.splitlines\<close> below 256; \<open>\r\n\<close> counts as one.\<close>

definition is_linebreak :: "char \<Rightarrow> bool" where
  "is_linebreak c = (let n = code c in
     (10 \<le> n \<and> n \<le> 13) \<or> (28 \<le> n \<and> n \<le> 30) \<or> n = 133)"

text \<open>\<open>\d\<close> of the \<open>re\<close> module on a \<open>str\<close> pattern: the decimal digits (below 256, only 0-9).\<close>

definition isdigit :: "char \<Rightarrow> bool" where
  "isdigit c = (let n = code c in 48 \<le> n \<and> n \<le> 57)"

text \<open>\<open>str.lower\<close> on one code point below 256: A-Z and the Latin-1 capitals.\<close>

definition lower_char :: "char \<Rightarrow> char" where
  "lower_char c = (let n = code c in
     if (65 \<le> n \<and> n \<le> 90) \<or> (192 \<le> n \<and> n \<le> 222 \<and> n \<noteq> 215)
     then char_of (n + 32) else c)"

definition lower :: "string \<Rightarrow> string" where
  "lower s = map lower_char s"

text \<open>\<open>s.lstrip(chars)\<close>, \<open>s.rstrip(chars)\<close>, \<open>s.strip(chars)\<close> with the set given as a predicate.\<close>

definition lstrip_by :: "(char \<Rightarrow> bool) \<Rightarrow> string \<Rightarrow> string" where
  "lstrip_by p s = dropWhile p s"

definition rstrip_by :: "(char \<Rightarrow> bool) \<Rightarrow> string \<Rightarrow> string" where
  "rstrip_by p s = rev (dropWhile p (rev s))"

definition strip_by :: "(char \<Rightarrow> bool) \<Rightarrow> string \<Rightarrow> string" where
  "strip_by p s = rstrip_by p (lstrip_by p s)"

definition strip :: "string \<Rightarrow> string" where
  "strip s = strip_by isspace s"

text \<open>\<open>sep.join(xs)\<close>.\<close>

fun join :: "string \<Rightarrow> string list \<Rightarrow> string" where
  "join sep [] = []"
| "join sep [x] = x"
| "join sep (x # y # ys) = x @ sep @ join sep (y # ys)"

text \<open>\<open>xs[:n]\<close> for an integer \<open>n\<close>: a negative stop counts from the end.\<close>

definition slice_to :: "int \<Rightarrow> 'a list \<Rightarrow> 'a list" where
  "slice_to n xs =
     (if 0 \<le> n then take (nat n) xs else take (length xs - nat (- n)) xs)"

text \<open>\<open>s.startswith(p)\<close> and the substring test \<open>v in s\<close>.\<close>

definition startswith :: "string \<Rightarrow> string \<Rightarrow> bool" where
  "startswith s p = prefix p s"

fun contains :: "string \<Rightarrow> string \<Rightarrow> bool" where
  "contains [] v = (v = [])"
| "contains (c # cs) v = (prefix v (c # cs) \<or> contains cs v)"

text \<open>
  \<open>str.splitlines()\<close>: the text is cut at every line boundary, \<open>\r\n\<close> is one boundary,
  and a boundary at the very end opens no further line. \<open>cur\<close> is the line being read.
\<close>

fun splitlines_from :: "string \<Rightarrow> string \<Rightarrow> string list" where
  "splitlines_from cur [] = (if cur = [] then [] else [cur])"
| "splitlines_from cur [c] =
     (if is_linebreak c then [cur] else [cur @ [c]])"
| "splitlines_from cur (c # d # cs) =
     (if c = CHR 0x0D \<and> d = CHR 0x0A then cur # splitlines_from [] cs
      else if is_linebreak c then cur # splitlines_from [] (d # cs)
      else splitlines_from (cur @ [c]) (d # cs))"

definition splitlines :: "string \<Rightarrow> string list" where
  "splitlines s = splitlines_from [] s"

text \<open>\<open>re.split\<close> on a one-character class: one piece more than there are delimiters.\<close>

fun split_on :: "(char \<Rightarrow> bool) \<Rightarrow> string \<Rightarrow> string list" where
  "split_on p [] = [[]]"
| "split_on p (c # cs) =
     (if p c then [] # split_on p cs
      else (case split_on p cs of [] \<Rightarrow> [[c]] | x # xs \<Rightarrow> (c # x) # xs))"

text \<open>\<open>s.split()\<close>: the maximal runs of characters that are not whitespace.\<close>

fun words_from :: "string \<Rightarrow> string \<Rightarrow> string list" where
  "words_from cur [] = (if cur = [] then [] else [cur])"
| "words_from cur (c # cs) =
     (if isspace c then (if cur = [] then words_from [] cs else cur # words_from [] cs)
      else words_from (cur @ [c]) cs)"

definition split_ws :: "string \<Rightarrow> string list" where
  "split_ws s = words_from [] s"

text \<open>
  \<open>re.match(r'^(a|b|c)[:\- ]', s)\<close>: \<open>s\<close> starts with one of the alternatives followed by
  a colon, a hyphen or a space.
\<close>

definition is_header_sep :: "char \<Rightarrow> bool" where
  "is_header_sep c = (c = CHR '':'' \<or> c = CHR ''-'' \<or> c = CHR '' '')"

definition header_match :: "string list \<Rightarrow> string \<Rightarrow> bool" where
  "header_match alts s =
     list_ex (\<lambda>a. prefix a s \<and> (case drop (length a) s of [] \<Rightarrow> False | c # _ \<Rightarrow> is_header_sep c)) alts"

section \<open>The parsed documents\<close>

text \<open>
  The dictionaries the parsers return have fixed keys; each is a record. Every read in
  the source goes through \<open>.get\<close> with an empty default or is guarded by one, so an
  absent key behaves as the empty value of the field.
\<close>

record resume =
  summary :: string
  skills :: "string list"
  experience :: "string list"

record jd =
  title :: string
  jd_skills :: "string list"
  responsibilities :: "string list"

record coaching_question =
  question :: string
  tip :: string

record suggestions =
  suggested_summary :: string
  add_skills :: "string list"
  rewritten_experience :: "string list"

section \<open>Section classifier and field extractor\<close>

definition VERB_KEYWORDS :: "string list" where
  "VERB_KEYWORDS =
     [''managed'', ''led'', ''developed'', ''designed'', ''implemented'', ''built'', ''created'',
      ''improved'', ''optimized'', ''automated'', ''reduced'', ''increased'', ''delivered'']"

text \<open>\<open>_lines\<close>: the stripped lines of the text that are not blank.\<close>

definition lines_of :: "string \<Rightarrow> string list" where
  "lines_of text = map strip (filter (\<lambda>l. strip l \<noteq> []) (splitlines text))"

text \<open>The pieces of a skills line: split on \<open>;\<close>, \<open>,\<close>, \<open>|\<close>, stripped, the empty ones dropped.\<close>

definition is_delim :: "char \<Rightarrow> bool" where
  "is_delim c = (c = CHR '';'' \<or> c = CHR '','' \<or> c = CHR ''|'')"

definition skill_tokens :: "string \<Rightarrow> string list" where
  "skill_tokens line = filter (\<lambda>v. v \<noteq> []) (map strip (split_on is_delim line))"

datatype section_name = NoSection | SkillsSection | ExperienceSection | SummarySection | ResponsibilitiesSection

definition is_skills_header :: "string \<Rightarrow> bool" where
  "is_skills_header llow =
     (header_match [''skills'', ''technical skills'', ''skillset''] llow \<or> llow = ''skills'')"

definition is_experience_header :: "string \<Rightarrow> bool" where
  "is_experience_header llow =
     (header_match [''experience'', ''work experience'', ''professional experience''] llow
      \<or> llow = ''experience'')"

definition is_summary_header :: "string \<Rightarrow> bool" where
  "is_summary_header llow =
     (header_match [''summary'', ''profile'', ''professional summary''] llow \<or> llow = ''summary'')"

text \<open>
  The loop state of \<open>parse_resume\<close>: the current section and the three lists being built.
\<close>

record resume_state =
  rs_section :: section_name
  rs_summary_lines :: "string list"
  rs_skills :: "string list"
  rs_experience :: "string list"

text \<open>
  One iteration of the loop. The bullet marker U+2022 of the source lies outside the modelled
  code points, so among the markers only \<open>-\<close> and \<open>*\<close> can occur.
\<close>

definition is_bullet_char :: "char \<Rightarrow> bool" where
  "is_bullet_char c = (c = CHR ''-'' \<or> c = CHR ''*'' \<or> c = CHR '' '')"

definition parse_resume_step :: "resume_state \<Rightarrow> string \<Rightarrow> resume_state" where
  "parse_resume_step st line =
     (let llow = lower line in
      if is_skills_header llow then st\<lparr>rs_section := SkillsSection\<rparr>
      else if is_experience_header llow then st\<lparr>rs_section := ExperienceSection\<rparr>
      else if is_summary_header llow then st\<lparr>rs_section := SummarySection\<rparr>
      else if rs_section st = SkillsSection
        then st\<lparr>rs_skills := rs_skills st @ skill_tokens line\<rparr>
      else if rs_section st = ExperienceSection
        then st\<lparr>rs_experience := rs_experience st @ [line]\<rparr>
      else if startswith line ''-'' \<or> startswith line ''*''
              \<or> list_ex (\<lambda>v. contains llow v) VERB_KEYWORDS
        then st\<lparr>rs_experience := rs_experience st @ [strip (lstrip_by is_bullet_char line)]\<rparr>
      else if length (rs_summary_lines st) < 3 \<and> length (split_ws line) < 40
        then st\<lparr>rs_summary_lines := rs_summary_lines st @ [line]\<rparr>
      else st)"

definition parse_resume :: "string \<Rightarrow> resume" where
  "parse_resume text =
     (let st = foldl parse_resume_step
                 \<lparr>rs_section = NoSection, rs_summary_lines = [], rs_skills = [], rs_experience = []\<rparr>
                 (lines_of text)
      in \<lparr>summary = strip (join '' '' (rs_summary_lines st)),
          skills = rs_skills st,
          experience = rs_experience st\<rparr>)"

record jd_state =
  js_section :: section_name
  js_skills :: "string list"
  js_responsibilities :: "string list"

definition parse_jd_step :: "jd_state \<Rightarrow> string \<Rightarrow> jd_state" where
  "parse_jd_step st line =
     (let llow = lower line in
      if contains llow ''skills'' \<or> contains llow ''requirements'' \<or> contains llow ''technologies''
        then st\<lparr>js_section := SkillsSection\<rparr>
      else if contains llow ''responsibil'' \<or> contains llow ''what you will''
        then st\<lparr>js_section := ResponsibilitiesSection\<rparr>
      else if js_section st = SkillsSection
        then st\<lparr>js_skills := js_skills st @ skill_tokens line\<rparr>
      else if js_section st = ResponsibilitiesSection
        then st\<lparr>js_responsibilities := js_responsibilities st @ [line]\<rparr>
      else if CHR '','' \<in> set line \<and> length line < 120
        then (let parts = filter (\<lambda>p. p \<noteq> []) (map strip (split_on (\<lambda>c. c = CHR '','') line))
              in if 1 < length parts then st\<lparr>js_skills := js_skills st @ parts\<rparr> else st)
      else st)"

definition parse_jd :: "string \<Rightarrow> jd" where
  "parse_jd text =
     (let ls = lines_of text;
          st = foldl parse_jd_step
                 \<lparr>js_section = NoSection, js_skills = [], js_responsibilities = []\<rparr> (drop 1 ls)
      in \<lparr>title = (case ls of [] \<Rightarrow> [] | l # _ \<Rightarrow> l),
          jd_skills = js_skills st,
          responsibilities = js_responsibilities st\<rparr>)"

section \<open>Python floats\<close>

text \<open>
  A Python \<open>float\<close> is an IEEE 754 double. A finite double is modelled by the rational it
  denotes, and every float operation by the exact operation followed by rounding to the
  nearest double (53 significant bits, ties to even). Overflow and subnormal numbers are
  left out: the floats of this program lie between 0 and 100 and, when not zero, are no
  smaller than 100 divided by the number of skills.
\<close>

text \<open>Rounding a rational to the nearest integer, a tie going to the even neighbour.\<close>

definition round_half_even :: "rat \<Rightarrow> int" where
  "round_half_even x =
     (let f = \<lfloor>x\<rfloor>; d = x - of_int f in
      if d < 1 / 2 then f else if 1 / 2 < d then f + 1 else if even f then f else f + 1)"

text \<open>The binary exponent of a positive rational: \<open>2 powi e \<le> x < 2 powi (e + 1)\<close>.\<close>

definition binexp :: "rat \<Rightarrow> int" where
  "binexp x =
     (let (a, b) = quotient_of x; e = bitlen a - bitlen b in
      if 2 powi e \<le> x then e else e - 1)"

definition to_double :: "rat \<Rightarrow> rat" where
  "to_double x =
     (if x = 0 then 0
      else let u = 2 powi (binexp \<bar>x\<bar> - 52) in of_int (round_half_even (x / u)) * u)"

definition float_of_int :: "int \<Rightarrow> rat" where
  "float_of_int k = to_double (of_int k)"

definition float_mul :: "rat \<Rightarrow> rat \<Rightarrow> rat" where
  "float_mul x y = to_double (x * y)"

definition float_div :: "rat \<Rightarrow> rat \<Rightarrow> rat" where
  "float_div x y = to_double (x / y)"

text \<open>
  \<open>round(x, 1)\<close> on a float: the exact value of \<open>x\<close> is rounded to the nearest multiple of
  one tenth, ties to even, and the double nearest to that decimal is returned.
\<close>

definition round1 :: "rat \<Rightarrow> rat" where
  "round1 x = to_double (of_int (round_half_even (10 * x)) / 10)"

section \<open>Matcher and scorer\<close>

text \<open>
  \<open>sorted(list(s))\<close> of a set of strings is its one sorted enumeration; Python compares
  strings by code point, position by position, a proper prefix being smaller.
\<close>

definition match_and_score :: "resume \<Rightarrow> jd \<Rightarrow> rat \<times> string list" where
  "match_and_score r j =
     (let resume_skills = set (map lower (skills r));
          jd_skills = set (map lower (jd_skills j))
      in if jd_skills = {} then (0, [])
         else let matched = resume_skills \<inter> jd_skills;
                  missing = sorted_list_of_set (jd_skills - resume_skills);
                  score = float_div (float_mul 100 (float_of_int (int (card matched))))
                                    (float_of_int (int (card jd_skills)))
              in (round1 score, missing))"

section \<open>Suggestion generator\<close>

text \<open>
  \<open>re.findall(r"\d+[\.,]?\d*%?|\d+", b)\<close>. At a digit the first alternative matches: a
  maximal run of digits, one \<open>.\<close> or \<open>,\<close> if it follows, a maximal run of digits, one
  \<open>%\<close> if it follows; every later part may be empty, so nothing is given back. The scan
  goes on behind the match. \<open>num_token\<close> returns the match and the rest.
\<close>

definition opt_char :: "(char \<Rightarrow> bool) \<Rightarrow> string \<Rightarrow> string \<times> string" where
  "opt_char p s = (case s of [] \<Rightarrow> ([], []) | x # xs \<Rightarrow> if p x then ([x], xs) else ([], s))"

definition num_token :: "string \<Rightarrow> string \<times> string" where
  "num_token s =
     (let d1 = takeWhile isdigit s; r1 = dropWhile isdigit s;
          (sep, r2) = opt_char (\<lambda>c. c = CHR ''.'' \<or> c = CHR '','') r1;
          d2 = takeWhile isdigit r2; r3 = dropWhile isdigit r2;
          (pc, r4) = opt_char (\<lambda>c. c = CHR ''%'') r3
      in (d1 @ sep @ d2 @ pc, r4))"

lemma length_opt_char: "length (snd (opt_char p s)) \<le> length s"
  by (simp add: opt_char_def split: list.split)

lemma length_num_token: "length (snd (num_token s)) \<le> length (dropWhile isdigit s)"
proof -
  let ?r1 = "dropWhile isdigit s"
  let ?r2 = "snd (opt_char (\<lambda>c. c = CHR ''.'' \<or> c = CHR '','') ?r1)"
  let ?r3 = "dropWhile isdigit ?r2"
  have "snd (num_token s) = snd (opt_char (\<lambda>c. c = CHR ''%'') ?r3)"
    by (simp add: num_token_def Let_def split: prod.split)
  moreover have "length (snd (opt_char (\<lambda>c. c = CHR ''%'') ?r3)) \<le> length ?r3"
    by (rule length_opt_char)
  moreover have "length ?r3 \<le> length ?r2"
    by (rule length_dropWhile_le)
  moreover have "length ?r2 \<le> length ?r1"
    by (rule length_opt_char)
  ultimately show ?thesis by simp
qed

function findall_nums :: "string \<Rightarrow> string list" where
  "findall_nums [] = []"
| "findall_nums (c # cs) =
     (if isdigit c then fst (num_token (c # cs)) # findall_nums (snd (num_token (c # cs)))
      else findall_nums cs)"
  by pat_completeness auto
termination
proof (relation "measure length")
  fix c cs assume "isdigit c"
  then have "length (snd (num_token (c # cs))) \<le> length (dropWhile isdigit cs)"
    using length_num_token [of "c # cs"] by simp
  also have "\<dots> \<le> length cs"
    by (rule length_dropWhile_le)
  finally show "(snd (num_token (c # cs)), c # cs) \<in> measure length"
    by simp
qed simp_all

definition rewrite_bullet :: "string \<Rightarrow> string" where
  "rewrite_bullet b =
     (if findall_nums b \<noteq> []
      then (if length b < 240 then b else take 240 b @ ''...'')
      else b @ '' (include quantifiable impact, e.g., reduced X by Y% or improved throughput by N)'')"

definition suggest_resume_updates :: "resume \<Rightarrow> jd \<Rightarrow> int \<Rightarrow> suggestions" where
  "suggest_resume_updates r j max_suggestions =
     (let title = title j;
          suggested_summary = summary r;
          suggested_summary =
            (if title \<noteq> []
             then (if suggested_summary \<noteq> [] then title @ '' - '' @ suggested_summary
                   else title @ '' candidate with relevant experience.'')
             else suggested_summary);
          missing = snd (match_and_score r j);
          add_skills = slice_to 10 missing;
          rewritten = map rewrite_bullet (slice_to max_suggestions (experience r))
      in \<lparr>suggested_summary = suggested_summary, add_skills = add_skills,
          rewritten_experience = rewritten\<rparr>)"

section \<open>Tailoring renderer\<close>

definition is_experience_line :: "string \<Rightarrow> bool" where
  "is_experience_line line =
     (startswith line ''-'' \<or> list_ex (\<lambda>v. contains (lower line) v) VERB_KEYWORDS)"

text \<open>
  The walk over the original lines; the state is the output so far and the number of
  lines replaced.
\<close>

fun tailor_walk :: "string list \<Rightarrow> string list \<Rightarrow> string list \<times> nat \<Rightarrow> string list \<times> nat" where
  "tailor_walk rw [] (out, replaced) = (out, replaced)"
| "tailor_walk rw (line # ls) (out, replaced) =
     (if replaced < length rw \<and> is_experience_line line
      then tailor_walk rw ls (out @ [''- '' @ rw ! replaced], Suc replaced)
      else tailor_walk rw ls (out @ [line], replaced))"

text \<open>The list \<open>out\<close> at the end of \<open>tailor_resume_text\<close>, and the final value of \<open>replaced\<close>.\<close>

definition tailor_head :: "suggestions \<Rightarrow> string list" where
  "tailor_head sg =
     (if suggested_summary sg \<noteq> [] then [suggested_summary sg, []] else [])
     @ (if add_skills sg \<noteq> [] then [''Skills:'', join '', '' (add_skills sg), []] else [])"

definition tailor_replaced :: "string \<Rightarrow> suggestions \<Rightarrow> nat" where
  "tailor_replaced original_text sg =
     snd (tailor_walk (rewritten_experience sg) (lines_of original_text) (tailor_head sg, 0))"

definition tailor_out :: "string \<Rightarrow> suggestions \<Rightarrow> string list" where
  "tailor_out original_text sg =
     (let rw = rewritten_experience sg;
          max_replace = length rw;
          (out, replaced) = tailor_walk rw (lines_of original_text) (tailor_head sg, 0)
      in if replaced < max_replace
         then out @ [[], ''Experience (suggested improvements):'']
                  @ map (\<lambda>i. ''- '' @ rw ! i) [replaced ..< max_replace]
         else out)"

definition tailor_resume_text :: "string \<Rightarrow> suggestions \<Rightarrow> string" where
  "tailor_resume_text original_text sg = join [CHR 0x0A] (tailor_out original_text sg)"

section \<open>Text-completion wrapper\<close>

text \<open>
  A decoded JSON document. A dictionary is an association list with one entry per key.
\<close>

datatype json =
    JNull
  | JBool bool
  | JInt int
  | JFloat rat
  | JStr string
  | JList "json list"
  | JDict "(string \<times> json) list"

datatype error = RuntimeError string | TypeError

text \<open>Truth value of a decoded document, as \<open>or\<close> and \<open>if\<close> test it.\<close>

fun truthy :: "json \<Rightarrow> bool" where
  "truthy JNull = False"
| "truthy (JBool b) = b"
| "truthy (JInt i) = (i \<noteq> 0)"
| "truthy (JFloat x) = (x \<noteq> 0)"
| "truthy (JStr s) = (s \<noteq> [])"
| "truthy (JList xs) = (xs \<noteq> [])"
| "truthy (JDict kvs) = (kvs \<noteq> [])"

text \<open>
  \<open>k in cand\<close> for a string \<open>k\<close>: a key test on a dictionary, a substring test on a
  string, a membership test on a list, and a \<open>TypeError\<close> on anything else.
\<close>

fun key_in :: "string \<Rightarrow> json \<Rightarrow> error + bool" where
  "key_in k (JDict kvs) = Inr (map_of kvs k \<noteq> None)"
| "key_in k (JStr s) = Inr (contains s k)"
| "key_in k (JList xs) = Inr (JStr k \<in> set xs)"
| "key_in k _ = Inl TypeError"

text \<open>\<open>cand[k]\<close> for a string \<open>k\<close> that passed \<open>k in cand\<close>: only a dictionary has it.\<close>

fun subscript :: "json \<Rightarrow> string \<Rightarrow> error + json" where
  "subscript (JDict kvs) k = (case map_of kvs k of Some v \<Rightarrow> Inr v | None \<Rightarrow> Inl TypeError)"
| "subscript _ k = Inl TypeError"

text \<open>The loop over \<open>('content', 'output', 'text')\<close>: \<open>None\<close> when no key is in \<open>cand\<close>.\<close>

fun first_key :: "string list \<Rightarrow> json \<Rightarrow> error + json option" where
  "first_key [] cand = Inr None"
| "first_key (k # ks) cand =
     (case key_in k cand of
        Inl e \<Rightarrow> Inl e
      | Inr True \<Rightarrow> (case subscript cand k of Inl e \<Rightarrow> Inl e | Inr v \<Rightarrow> Inr (Some v))
      | Inr False \<Rightarrow> first_key ks cand)"

text \<open>\<open>d.get(k)\<close> on a dictionary, \<open>None\<close> being \<open>JNull\<close>.\<close>

definition dict_get :: "(string \<times> json) list \<Rightarrow> string \<Rightarrow> json" where
  "dict_get kvs k = (case map_of kvs k of Some v \<Rightarrow> v | None \<Rightarrow> JNull)"

text \<open>
  The \<open>message\<close> branch for the first candidate: \<open>None\<close> when it returns nothing and the
  function goes on.
\<close>

definition message_text :: "json \<Rightarrow> error + json option" where
  "message_text cand =
     (case key_in ''message'' cand of
        Inl e \<Rightarrow> Inl e
      | Inr False \<Rightarrow> Inr None
      | Inr True \<Rightarrow>
          (case subscript cand ''message'' of
             Inl e \<Rightarrow> Inl e
           | Inr (JDict m) \<Rightarrow>
               (let cont = (if truthy (dict_get m ''content'') then dict_get m ''content''
                            else dict_get m ''text'')
                in case cont of JStr t \<Rightarrow> Inr (Some (JStr t)) | _ \<Rightarrow> Inr None)
           | Inr _ \<Rightarrow> Inr None))"

text \<open>The tail of \<open>_extract_text_from_response\<close>, behind the candidates.\<close>

definition extract_output :: "(json \<Rightarrow> string) \<Rightarrow> (string \<times> json) list \<Rightarrow> json" where
  "extract_output dumps kvs =
     (case map_of kvs ''output'' of
        Some (JStr t) \<Rightarrow> JStr t
      | _ \<Rightarrow> JStr (dumps (JDict kvs)))"

text \<open>
  \<open>_extract_text_from_response\<close>. \<open>json.dumps\<close> is the parameter \<open>dumps\<close>. The result is
  whatever the response holds under the key found, a string or not.
\<close>

definition extract_text_from_response :: "(json \<Rightarrow> string) \<Rightarrow> json \<Rightarrow> error + json" where
  "extract_text_from_response dumps resp_json =
     (case resp_json of
        JDict kvs \<Rightarrow>
          (case map_of kvs ''candidates'' of
             Some (JList (cand # _)) \<Rightarrow>
               (case first_key [''content'', ''output'', ''text''] cand of
                  Inl e \<Rightarrow> Inl e
                | Inr (Some v) \<Rightarrow> Inr v
                | Inr None \<Rightarrow>
                    (case message_text cand of
                       Inl e \<Rightarrow> Inl e
                     | Inr (Some v) \<Rightarrow> Inr v
                     | Inr None \<Rightarrow> Inr (extract_output dumps kvs)))
           | _ \<Rightarrow> Inr (extract_output dumps kvs))
      | _ \<Rightarrow> Inr (JStr []))"

text \<open>\<open>str(n)\<close> of an integer, for the status code in the failure message.\<close>

function str_nat :: "nat \<Rightarrow> string" where
  "str_nat n = (if n < 10 then [char_of (48 + n)] else str_nat (n div 10) @ [char_of (48 + n mod 10)])"
  by pat_completeness auto
termination
  by (relation "measure id") auto

declare str_nat.simps [simp del]

definition str_int :: "int \<Rightarrow> string" where
  "str_int i = (if i < 0 then ''-'' @ str_nat (nat (- i)) else str_nat (nat i))"

text \<open>
  What \<open>requests.post\<close> does is the outside world's: either it raises, with the message
  \<open>str(e)\<close>, or it returns a response, whose \<open>json()\<close> either decodes the body or raises.
\<close>

record response =
  status_code :: int
  resp_text :: string
  json_body :: "json option"

datatype post_result = Raised string | Returned response

record request_body =
  prompt_text :: string
  temperature :: rat
  maxOutputTokens :: int

definition DEFAULT_MODEL :: string where
  "DEFAULT_MODEL = ''gemini-2.5-flash''"

definition endpoint :: "string \<Rightarrow> string" where
  "endpoint model =
     ''https://generativelanguage.googleapis.com/v1beta2/models/'' @ model @ '':generate''"

definition failure_marker :: string where
  "failure_marker = ''LLM request failed: ''"

text \<open>
  \<open>call_gemini_flash\<close>: \<open>env_key\<close> is the environment variable, \<open>post\<close> the network.
\<close>

definition effective_key :: "string option \<Rightarrow> string option \<Rightarrow> string option" where
  "effective_key api_key env_key =
     (case api_key of Some k \<Rightarrow> (if k \<noteq> [] then Some k else env_key) | None \<Rightarrow> env_key)"

definition read_response :: "(json \<Rightarrow> string) \<Rightarrow> post_result \<Rightarrow> error + json" where
  "read_response dumps res =
     (case res of
        Raised e \<Rightarrow> Inr (JStr (failure_marker @ e))
      | Returned r \<Rightarrow>
          (if status_code r \<noteq> 200
           then Inr (JStr (failure_marker @ str_int (status_code r) @ '' '' @ resp_text r))
           else (case json_body r of
                   None \<Rightarrow> Inr (JStr (resp_text r))
                 | Some resp_json \<Rightarrow> extract_text_from_response dumps resp_json)))"

definition call_gemini_flash ::
  "(json \<Rightarrow> string) \<Rightarrow> (string \<Rightarrow> request_body \<Rightarrow> post_result) \<Rightarrow> string option
     \<Rightarrow> string \<Rightarrow> string option \<Rightarrow> string \<Rightarrow> int \<Rightarrow> rat \<Rightarrow> error + json" where
  "call_gemini_flash dumps post env_key prompt api_key model max_output_tokens temp =
     (case effective_key api_key env_key of
        None \<Rightarrow> Inl (RuntimeError ''GOOGLE_API_KEY not provided'')
      | Some k \<Rightarrow>
          (if k = [] then Inl (RuntimeError ''GOOGLE_API_KEY not provided'')
           else let url = endpoint model @ ''?key='' @ k;
                    body = \<lparr>prompt_text = prompt, temperature = temp,
                            maxOutputTokens = max_output_tokens\<rparr>
                in read_response dumps (post url body)))"

section \<open>Coaching questions\<close>

definition skill_question :: "string \<Rightarrow> coaching_question" where
  "skill_question s =
     \<lparr>question = ''Can you describe your experience with '' @ s @ ''?'',
      tip = ''Mention specific projects, your role, technologies used, and outcomes or metrics.''\<rparr>"

definition responsibility_question :: "string \<Rightarrow> coaching_question" where
  "responsibility_question r =
     \<lparr>question = ''Tell me about a time you '' @ lower (strip_by (\<lambda>c. c = CHR ''.'') r),
      tip = ''Use STAR (Situation, Task, Action, Result) and quantify results when possible.''\<rparr>"

definition generic_question :: coaching_question where
  "generic_question =
     \<lparr>question = ''Describe a technical challenge you solved recently.'',
      tip = ''Explain trade-offs, your approach, and measurable outcome.''\<rparr>"

text \<open>The final \<open>while len(questions) < n\<close> loop.\<close>

function pad_questions :: "coaching_question list \<Rightarrow> int \<Rightarrow> coaching_question list" where
  "pad_questions qs n =
     (if int (length qs) < n then pad_questions (qs @ [generic_question]) n else qs)"
  by pat_completeness auto
termination
  by (relation "measure (\<lambda>(qs, n). nat (n - int (length qs)))") auto

declare pad_questions.simps [simp del]

definition generate_coaching_questions :: "jd \<Rightarrow> int \<Rightarrow> coaching_question list" where
  "generate_coaching_questions j n =
     (let sk = jd_skills j;
          responsibilities = responsibilities j;
          questions = map skill_question (if sk \<noteq> [] then slice_to n sk else []);
          questions = questions @ map responsibility_question
             (slice_to (max 0 (n - int (length questions))) responsibilities)
      in pad_questions questions n)"

section \<open>Properties of the coaching questions\<close>

lemma pad_questions_eq:
  "pad_questions qs n = qs @ replicate (nat (n - int (length qs))) generic_question"
proof (induction qs n rule: pad_questions.induct)
  case (1 qs n)
  show ?case
  proof (cases "int (length qs) < n")
    case True
    then have "nat (n - int (length qs)) = Suc (nat (n - int (length (qs @ [generic_question]))))"
      by simp
    then have "replicate (nat (n - int (length qs))) generic_question =
        generic_question # replicate (nat (n - int (length (qs @ [generic_question])))) generic_question"
      by (simp only: replicate_Suc)
    moreover have "pad_questions qs n = pad_questions (qs @ [generic_question]) n"
      using True by (subst pad_questions.simps) simp
    ultimately show ?thesis
      using "1" [OF True] by simp
  next
    case False
    then show ?thesis by (subst pad_questions.simps) simp
  qed
qed

lemma length_slice_to_nonneg: "0 \<le> n \<Longrightarrow> length (slice_to n xs) = min (nat n) (length xs)"
  by (simp add: slice_to_def min_def)

lemma length_slice_to_neg: "n < 0 \<Longrightarrow> length (slice_to n xs) = length xs - nat (- n)"
  by (simp add: slice_to_def)

lemma slice_to_zero: "slice_to 0 xs = []"
  by (simp add: slice_to_def)

text \<open>
  C9: for every parsed job description and every target count \<open>n \<ge> 0\<close> the generator
  returns exactly \<open>n\<close> entries: the questions for the first \<open>k = min n |skills|\<close> skills,
  then those for the first \<open>m = min (n - k) |responsibilities|\<close> responsibilities, then the
  generic question/tip pair exactly \<open>n - k - m\<close> times, so that padding occurs only when
  skills and responsibilities together are fewer than \<open>n\<close>.
\<close>

theorem generate_coaching_questions_length:
  assumes "0 \<le> n"
  shows "int (length (generate_coaching_questions j n)) = n
     \<and> generate_coaching_questions j n =
         (let k = min (nat n) (length (jd_skills j));
              m = min (nat n - k) (length (responsibilities j))
          in map skill_question (take k (jd_skills j))
             @ map responsibility_question (take m (responsibilities j))
             @ replicate (nat n - k - m) generic_question)"
proof -
  define qs1 where "qs1 = map skill_question (if jd_skills j \<noteq> [] then slice_to n (jd_skills j) else [])"
  define qs2 where "qs2 = qs1 @ map responsibility_question
      (slice_to (max 0 (n - int (length qs1))) (responsibilities j))"
  have g: "generate_coaching_questions j n = pad_questions qs2 n"
    unfolding generate_coaching_questions_def Let_def qs1_def qs2_def ..
  have qs1: "qs1 = map skill_question (take (nat n) (jd_skills j))"
    using assms by (simp add: qs1_def slice_to_def)
  have l1: "length qs1 \<le> nat n"
    by (simp add: qs1)
  then have mx: "max 0 (n - int (length qs1)) = n - int (length qs1)" "0 \<le> n - int (length qs1)"
    using assms by auto
  have qs2: "qs2 = qs1 @ map responsibility_question
      (take (nat n - length qs1) (responsibilities j))"
    using mx l1 by (simp add: qs2_def slice_to_def nat_diff_distrib')
  have l2: "length qs2 \<le> nat n"
    using l1 by (simp add: qs2)
  have len: "int (length (generate_coaching_questions j n)) = n"
    using l2 assms by (simp add: g pad_questions_eq)
  define k where "k = min (nat n) (length (jd_skills j))"
  define m where "m = min (nat n - k) (length (responsibilities j))"
  have kle: "k \<le> length (jd_skills j)" and mle: "m \<le> length (responsibilities j)"
    by (simp_all add: k_def m_def)
  have t1: "take (nat n) (jd_skills j) = take k (jd_skills j)"
    by (simp add: k_def min_def)
  have t2: "take (nat n - k) (responsibilities j) = take m (responsibilities j)"
    by (simp add: m_def min_def)
  have lq1: "length qs1 = k"
    using kle by (simp add: qs1 t1)
  have qs2': "qs2 = map skill_question (take k (jd_skills j))
      @ map responsibility_question (take m (responsibilities j))"
    by (simp only: qs2 lq1 t2) (simp only: qs1 t1)
  have lq2: "length qs2 = k + m"
    using kle mle by (simp add: qs2')
  have "nat (n - int (length qs2)) = nat n - length qs2"
    using assms by arith
  then have "nat (n - int (length qs2)) = nat n - k - m"
    by (simp only: lq2 diff_diff_left)
  then have "pad_questions qs2 n = qs2 @ replicate (nat n - k - m) generic_question"
    by (simp only: pad_questions_eq)
  then have "generate_coaching_questions j n =
      map skill_question (take k (jd_skills j))
      @ map responsibility_question (take m (responsibilities j))
      @ replicate (nat n - k - m) generic_question"
    by (simp only: g qs2' append_assoc)
  with len show ?thesis
    unfolding Let_def k_def m_def by (rule conjI)
qed

theorem generate_coaching_questions_length_witness:
  "(0::int) \<le> 3
   \<and> int (length (generate_coaching_questions
        \<lparr>title = ''Engineer'', jd_skills = [''python''], responsibilities = [''Build APIs.'']\<rparr> 3)) = 3
   \<and> generate_coaching_questions
        \<lparr>title = ''Engineer'', jd_skills = [''python''], responsibilities = [''Build APIs.'']\<rparr> 3
       = [skill_question ''python'', responsibility_question ''Build APIs.'', generic_question]"
  using generate_coaching_questions_length
    [of 3 "\<lparr>title = ''Engineer'', jd_skills = [''python''], responsibilities = [''Build APIs.'']\<rparr>"]
  by simp

text \<open>
  C10: for a negative target count \<open>n\<close> and \<open>k\<close> extracted skills the generator returns
  the skill questions for all but the last \<open>min |n| k\<close> skills and nothing else, that is
  \<open>max (k + n) 0\<close> entries: no responsibility question and no generic padding.
\<close>

theorem generate_coaching_questions_negative:
  assumes "n < 0"
  shows "generate_coaching_questions j n =
         map skill_question
           (take (length (jd_skills j) - min (nat (- n)) (length (jd_skills j))) (jd_skills j))
     \<and> int (length (generate_coaching_questions j n)) = max (int (length (jd_skills j)) + n) 0"
proof -
  define qs1 where "qs1 = map skill_question (if jd_skills j \<noteq> [] then slice_to n (jd_skills j) else [])"
  define qs2 where "qs2 = qs1 @ map responsibility_question
      (slice_to (max 0 (n - int (length qs1))) (responsibilities j))"
  have g: "generate_coaching_questions j n = pad_questions qs2 n"
    unfolding generate_coaching_questions_def Let_def qs1_def qs2_def ..
  have qs1: "qs1 = map skill_question (take (length (jd_skills j) - nat (- n)) (jd_skills j))"
    using assms by (simp add: qs1_def slice_to_def)
  have "max 0 (n - int (length qs1)) = 0"
    using assms by simp
  then have qs2: "qs2 = qs1"
    by (simp add: qs2_def slice_to_zero)
  have "\<not> int (length qs2) < n"
    using assms by simp
  then have p: "pad_questions qs2 n = qs1"
    by (subst pad_questions.simps) (simp add: qs2)
  have t: "length (jd_skills j) - min (nat (- n)) (length (jd_skills j))
      = length (jd_skills j) - nat (- n)"
    by (simp add: min_def)
  have "int (length qs1) = max (int (length (jd_skills j)) + n) 0"
    using assms by (simp add: qs1 max_def)
  then show ?thesis
    by (simp only: g p t) (simp only: qs1)
qed

theorem generate_coaching_questions_negative_witness:
  "(- 1 :: int) < 0
   \<and> generate_coaching_questions
        \<lparr>title = ''Engineer'', jd_skills = [''python'', ''sql''], responsibilities = [''Build APIs.'']\<rparr> (- 1)
      = [skill_question ''python'']"
  using generate_coaching_questions_negative
    [of "- 1" "\<lparr>title = ''Engineer'', jd_skills = [''python'', ''sql''], responsibilities = [''Build APIs.'']\<rparr>"]
  by simp

section \<open>Properties of the section classifier\<close>

text \<open>
  C1 (as stated): the text whose only line is \<open>Skills: Python, SQL, Docker\<close> does not give
  the skills Python, SQL, Docker: the line is taken as the header of the skills section.
\<close>

theorem parse_resume_header_line_counterexample:
  "skills (parse_resume ''Skills: Python, SQL, Docker'') \<noteq> [''Python'', ''SQL'', ''Docker'']"
  by code_simp

text \<open>
  C1 (amended): the text whose only line is \<open>Skills: Python, SQL, Docker\<close> gives no skill,
  since a header line only switches the section; the same tokens on the line after the
  header \<open>Skills:\<close> give the skills Python, SQL, Docker in this order.
\<close>

theorem parse_resume_skills_scenario:
  "skills (parse_resume ''Skills: Python, SQL, Docker'') = []
   \<and> skills (parse_resume (''Skills:'' @ [CHR 0x0A] @ ''Python, SQL, Docker''))
       = [''Python'', ''SQL'', ''Docker'']"
  by code_simp

section \<open>Properties of the matcher and the suggestion generator\<close>

lemma snd_match_and_score:
  "snd (match_and_score r j) =
     sorted_list_of_set (set (map lower (jd_skills j)) - set (map lower (skills r)))"
  by (simp add: match_and_score_def Let_def)

text \<open>
  C8: the missing list holds only lowercased skills of the job description and none of the
  lowercased skills of the resume, and \<open>add_skills\<close> is its prefix of at most 10 entries.
\<close>

theorem missing_invariant:
  "set (snd (match_and_score r j)) \<subseteq> set (map lower (jd_skills j))
   \<and> set (snd (match_and_score r j)) \<inter> set (map lower (skills r)) = {}
   \<and> add_skills (suggest_resume_updates r j max_suggestions) = take 10 (snd (match_and_score r j))
   \<and> length (add_skills (suggest_resume_updates r j max_suggestions)) \<le> 10"
  by (auto simp add: snd_match_and_score suggest_resume_updates_def Let_def slice_to_def)

text \<open>
  C4 (the code at the boundary): a bullet of exactly 240 characters that holds a number is
  not passed through unchanged; three dots are appended to it although nothing was cut.
\<close>

theorem rewrite_bullet_at_240:
  "findall_nums (replicate 240 (CHR ''7'')) \<noteq> []
   \<and> length (replicate 240 (CHR ''7'')) = 240
   \<and> rewritten_experience (suggest_resume_updates
        \<lparr>summary = [], skills = [], experience = [replicate 240 (CHR ''7'')]\<rparr>
        \<lparr>title = [], jd_skills = [], responsibilities = []\<rparr> 6)
      = [replicate 240 (CHR ''7'') @ ''...'']"
  by code_simp

section \<open>Properties of the text-completion wrapper\<close>

text \<open>
  C5 (as stated): a response with status 200 whose body does not decode is a parse failure,
  and the wrapper returns the body itself, which does not begin with the failure marker.
\<close>

theorem call_gemini_flash_unparsable_counterexample:
  "call_gemini_flash (\<lambda>d. [])
      (\<lambda>url body. Returned \<lparr>status_code = 200, resp_text = ''<html>Bad gateway</html>'',
                             json_body = None\<rparr>)
      None ''prompt'' (Some ''key'') DEFAULT_MODEL 1024 (1 / 5)
     = Inr (JStr ''<html>Bad gateway</html>'')
   \<and> \<not> prefix failure_marker ''<html>Bad gateway</html>''"
  by (simp add: call_gemini_flash_def effective_key_def read_response_def failure_marker_def)

text \<open>
  C5 (amended): with a credential at hand, when the request raises or the response has a
  status other than 200 the wrapper returns the failure marker followed by the reason; when
  the status is 200 and the body does not decode it returns the body text as it is.
\<close>

theorem call_gemini_flash_failure:
  assumes "effective_key api_key env_key = Some k" and "k \<noteq> []"
    and "post (endpoint model @ ''?key='' @ k)
           \<lparr>prompt_text = prompt, temperature = temp, maxOutputTokens = max_output_tokens\<rparr> = res"
  shows "(\<forall>e. res = Raised e \<longrightarrow>
            call_gemini_flash dumps post env_key prompt api_key model max_output_tokens temp
              = Inr (JStr (failure_marker @ e)))
     \<and> (\<forall>r. res = Returned r \<and> status_code r \<noteq> 200 \<longrightarrow>
            call_gemini_flash dumps post env_key prompt api_key model max_output_tokens temp
              = Inr (JStr (failure_marker @ str_int (status_code r) @ '' '' @ resp_text r)))
     \<and> (\<forall>r. res = Returned r \<and> status_code r = 200 \<and> json_body r = None \<longrightarrow>
            call_gemini_flash dumps post env_key prompt api_key model max_output_tokens temp
              = Inr (JStr (resp_text r)))"
  using assms by (simp add: call_gemini_flash_def read_response_def Let_def)

theorem call_gemini_flash_failure_witness:
  "call_gemini_flash (\<lambda>d. []) (\<lambda>url body. Raised ''timed out'')
      (Some ''key'') ''prompt'' None DEFAULT_MODEL 1024 (1 / 5)
     = Inr (JStr ''LLM request failed: timed out'')
   \<and> call_gemini_flash (\<lambda>d. [])
      (\<lambda>url body. Returned \<lparr>status_code = 503, resp_text = ''busy'', json_body = None\<rparr>)
      (Some ''key'') ''prompt'' None DEFAULT_MODEL 1024 (1 / 5)
     = Inr (JStr ''LLM request failed: 503 busy'')
   \<and> call_gemini_flash (\<lambda>d. [])
      (\<lambda>url body. Returned \<lparr>status_code = 200, resp_text = ''busy'', json_body = None\<rparr>)
      (Some ''key'') ''prompt'' None DEFAULT_MODEL 1024 (1 / 5)
     = Inr (JStr ''busy'')"
proof -
  have k: "effective_key None (Some ''key'') = Some ''key''" "''key'' \<noteq> []"
    by (simp_all add: effective_key_def)
  have s: "str_int 503 = ''503''"
    by code_simp
  note t = call_gemini_flash_failure [OF k, where dumps = "\<lambda>d. []" and model = DEFAULT_MODEL
      and prompt = "''prompt''" and max_output_tokens = 1024 and temp = "1 / 5"]
  show ?thesis
    using t [of "\<lambda>url body. Raised ''timed out''", OF refl]
      t [of "\<lambda>url body. Returned \<lparr>status_code = 503, resp_text = ''busy'', json_body = None\<rparr>", OF refl]
      t [of "\<lambda>url body. Returned \<lparr>status_code = 200, resp_text = ''busy'', json_body = None\<rparr>", OF refl]
    by (simp add: failure_marker_def s)
qed

section \<open>Properties of the tailoring renderer\<close>


lemma tailor_walk_fst_length:
  "length (fst (tailor_walk rw ls (out, k))) = length out + length ls"
  by (induction ls arbitrary: out k) simp_all

lemma tailor_walk_keeps_head:
  "i < length out \<Longrightarrow> fst (tailor_walk rw ls (out, k)) ! i = out ! i"
  by (induction ls arbitrary: out k) (simp_all add: nth_append)

lemma tailor_walk_take_head:
  "take (length out) (fst (tailor_walk rw ls (out, k))) = out"
  by (rule nth_equalityI) (simp_all add: tailor_walk_fst_length tailor_walk_keeps_head)

lemma tailor_walk_unsubstituted:
  "i < length ls \<Longrightarrow>
   \<not> (is_experience_line (ls ! i) \<and> k + length (filter is_experience_line (take i ls)) < length rw) \<Longrightarrow>
   fst (tailor_walk rw ls (out, k)) ! (length out + i) = ls ! i"
proof (induction ls arbitrary: out k i)
  case Nil
  then show ?case by simp
next
  case (Cons l ls)
  show ?case
  proof (cases i)
    case 0
    with Cons.prems have "\<not> (k < length rw \<and> is_experience_line l)" by auto
    then have "fst (tailor_walk rw (l # ls) (out, k)) = fst (tailor_walk rw ls (out @ [l], k))"
      by auto
    with 0 tailor_walk_keeps_head [of "length out" "out @ [l]" rw ls k] show ?thesis
      by simp
  next
    case (Suc i')
    show ?thesis
    proof (cases "k < length rw \<and> is_experience_line l")
      case True
      with Cons.prems Suc have "i' < length ls"
        "\<not> (is_experience_line (ls ! i') \<and> Suc k + length (filter is_experience_line (take i' ls)) < length rw)"
        by auto
      from Cons.IH [OF this, of "out @ [''- '' @ rw ! k]"] True Suc show ?thesis by simp
    next
      case False
      with Cons.prems Suc have "i' < length ls"
        "\<not> (is_experience_line (ls ! i') \<and> k + length (filter is_experience_line (take i' ls)) < length rw)"
        by (auto split: if_splits)
      from Cons.IH [OF this, of "out @ [l]"] False Suc show ?thesis by auto
    qed
  qed
qed







text \<open>
  C6 (as stated): the original line \<open>  Education\<close> is not replaced, yet it is not in the output
  with its leading blanks: the output is \<open>Education\<close>.
\<close>

theorem tailor_strips_lines_counterexample:
  "tailor_replaced ''  Education'' \<lparr>suggested_summary = [], add_skills = [], rewritten_experience = []\<rparr> = 0
   \<and> tailor_resume_text ''  Education''
        \<lparr>suggested_summary = [], add_skills = [], rewritten_experience = []\<rparr> = ''Education''
   \<and> \<not> contains (tailor_resume_text ''  Education''
        \<lparr>suggested_summary = [], add_skills = [], rewritten_experience = []\<rparr>) ''  Education''"
  by code_simp

text \<open>
  C6 (amended): the renderer works on the stripped, non-blank lines of the text. Each of
  them that is not replaced (it does not match the experience heuristic, or the rewritten
  entries are used up by the matching lines before it) stands in the output unchanged, at
  its position behind the summary and skills blocks.
\<close>

theorem tailor_unsubstituted_lines:
  assumes "i < length (lines_of original_text)"
    and "\<not> (is_experience_line (lines_of original_text ! i)
            \<and> length (filter is_experience_line (take i (lines_of original_text)))
                < length (rewritten_experience sg))"
  shows "tailor_out original_text sg ! (length (tailor_head sg) + i) = lines_of original_text ! i
     \<and> lines_of original_text ! i \<in> strip ` {l \<in> set (splitlines original_text). strip l \<noteq> []}"
proof -
  let ?rw = "rewritten_experience sg"
  let ?ls = "lines_of original_text"
  let ?w = "tailor_walk ?rw ?ls (tailor_head sg, 0)"
  have "tailor_out original_text sg ! (length (tailor_head sg) + i) = fst ?w ! (length (tailor_head sg) + i)"
    using assms(1)
    by (simp add: tailor_out_def Let_def split_beta nth_append tailor_walk_fst_length)
  also have "\<dots> = ?ls ! i"
    using tailor_walk_unsubstituted [of i ?ls 0 ?rw "tailor_head sg"] assms by simp
  finally have a: "tailor_out original_text sg ! (length (tailor_head sg) + i) = ?ls ! i" .
  have "?ls ! i \<in> set ?ls"
    using assms(1) by simp
  then have "?ls ! i \<in> strip ` {l \<in> set (splitlines original_text). strip l \<noteq> []}"
    by (auto simp add: lines_of_def)
  with a show ?thesis by simp
qed

theorem tailor_unsubstituted_lines_witness:
  "tailor_out (''John Doe\<newline>  - did x\<newline>   Education  '')
        \<lparr>suggested_summary = ''Engineer'', add_skills = [], rewritten_experience = [''r1'']\<rparr> ! (2 + 2)
      = ''Education''"
proof -
  let ?t = "''John Doe\<newline>  - did x\<newline>   Education  ''"
  let ?sg = "\<lparr>suggested_summary = ''Engineer'', add_skills = [], rewritten_experience = [''r1'']\<rparr>"
  have n: "length (lines_of ?t) = 3"
    by code_simp
  have l: "lines_of ?t ! 2 = ''Education''"
    by code_simp
  have e: "\<not> is_experience_line ''Education''"
    by code_simp
  have h: "length (tailor_head ?sg) = 2"
    by (simp add: tailor_head_def)
  show ?thesis
    using tailor_unsubstituted_lines [of 2 ?t ?sg] unfolding n l h by (simp add: e)
qed

section \<open>Properties of the score\<close>

lemma round_half_even_bound: "\<bar>of_int (round_half_even x) - x\<bar> \<le> 1 / 2"
proof -
  have "of_int \<lfloor>x\<rfloor> \<le> x" "x < of_int \<lfloor>x\<rfloor> + 1"
    by linarith+
  then show ?thesis
    by (auto simp add: round_half_even_def Let_def)
qed

lemma round_half_even_of_int: "round_half_even (of_int k) = k"
  by (simp add: round_half_even_def)

lemma binexp_le:
  assumes "0 < x"
  shows "2 powi (binexp x) \<le> x"
proof -
  obtain a b where q: "quotient_of x = (a, b)"
    by (cases "quotient_of x")
  have b: "0 < b"
    using q by (rule quotient_of_denom_pos)
  have x: "x = of_int a / of_int b"
    using q by (rule quotient_of_div)
  have a: "0 < a"
    using assms b x by (simp add: zero_less_divide_iff)
  define e where "e = bitlen a - bitlen b"
  have bin: "binexp x = (if 2 powi e \<le> x then e else e - 1)"
    by (simp add: binexp_def q e_def)
  show ?thesis
  proof (cases "2 powi e \<le> x")
    case True
    with bin show ?thesis by simp
  next
    case False
    have la: "1 \<le> bitlen a" and lb: "1 \<le> bitlen b"
      using a b by (simp_all add: bitlen_alt_def)
    have "(2::int) ^ nat (bitlen a - 1) \<le> a"
      using bitlen_bounds [OF a] by simp
    then have "(of_int ((2::int) ^ nat (bitlen a - 1)) :: rat) \<le> of_int a"
      by (simp only: of_int_le_iff)
    then have A: "(2::rat) powi (bitlen a - 1) \<le> of_int a"
      using la by (simp add: power_int_nonneg_exp)
    have "b < (2::int) ^ nat (bitlen b)"
      using bitlen_bounds [OF b] by simp
    then have "(of_int b :: rat) < of_int ((2::int) ^ nat (bitlen b))"
      by (simp only: of_int_less_iff)
    then have B: "(of_int b :: rat) < 2 powi (bitlen b)"
      using lb by (simp add: power_int_nonneg_exp)
    have "(2::rat) powi (e - 1) = 2 powi (bitlen a - 1) / 2 powi (bitlen b)"
      by (simp add: e_def power_int_diff)
    also have "\<dots> \<le> of_int a / 2 powi (bitlen b)"
      using A by (simp add: divide_right_mono)
    also have "\<dots> \<le> of_int a / of_int b"
      using B a b by (simp add: frac_le)
    finally show ?thesis
      using False bin x by simp
  qed
qed

lemma binexp_less:
  assumes "0 < x" and "x < 2 powi E"
  shows "binexp x < E"
proof (rule ccontr)
  assume "\<not> binexp x < E"
  then have "(2::rat) powi E \<le> 2 powi (binexp x)"
    by (simp add: power_int_increasing)
  also have "\<dots> \<le> x"
    using assms(1) by (rule binexp_le)
  finally show False
    using assms(2) by simp
qed

lemma to_double_error:
  assumes "0 < x" and "x < 2 powi E"
  shows "\<bar>to_double x - x\<bar> \<le> 2 powi (E - 54)"
proof -
  define u :: rat where "u = 2 powi (binexp \<bar>x\<bar> - 52)"
  have upos: "0 < u"
    by (simp add: u_def)
  have "binexp \<bar>x\<bar> - 52 \<le> E - 53"
    using binexp_less [OF assms] assms(1) by simp
  then have ule: "u \<le> 2 powi (E - 53)"
    unfolding u_def by (simp add: power_int_increasing)
  have td: "to_double x = of_int (round_half_even (x / u)) * u"
    using assms(1) by (simp add: to_double_def u_def Let_def)
  have "to_double x - x = (of_int (round_half_even (x / u)) - x / u) * u"
    using upos by (simp add: td field_simps)
  then have "\<bar>to_double x - x\<bar> = \<bar>of_int (round_half_even (x / u)) - x / u\<bar> * u"
    using upos by (simp only: abs_mult abs_of_pos)
  also have "\<dots> \<le> (1 / 2) * u"
    using round_half_even_bound [of "x / u"] upos by (simp add: mult_right_mono)
  also have "\<dots> \<le> (1 / 2) * 2 powi (E - 53)"
    using ule by simp
  also have "\<dots> = 2 powi (E - 54)"
    by (simp add: power_int_diff)
  finally show ?thesis .
qed

lemma to_double_of_int:
  assumes "0 \<le> a" and "a < 2 ^ 53"
  shows "to_double (of_int a) = of_int a"
proof (cases "a = 0")
  case True
  then show ?thesis by (simp add: to_double_def)
next
  case False
  with assms have a: "0 < (of_int a :: rat)" by simp
  have "(of_int a :: rat) < of_int (2 ^ 53)"
    using assms(2) by (simp only: of_int_less_iff)
  then have "(of_int a :: rat) < 2 powi 53"
    by simp
  with a have e: "binexp (of_int a) < 53"
    by (rule binexp_less)
  define n where "n = nat (52 - binexp (of_int a))"
  have u: "(2::rat) powi (binexp (of_int a) - 52) = 1 / 2 ^ n"
  proof -
    have "binexp (of_int a :: rat) - 52 = - int n"
      using e a by (simp add: n_def)
    then show ?thesis
      by (simp add: power_int_minus_divide)
  qed
  have "of_int a / (1 / 2 ^ n) = (of_int (a * 2 ^ n) :: rat)"
    by simp
  then have "round_half_even (of_int a / (1 / 2 ^ n)) = a * 2 ^ n"
    by (simp only: round_half_even_of_int)
  then show ?thesis
    using a by (simp add: to_double_def u Let_def)
qed

lemma round_tenth_nearest:
  fixes m n :: int and x :: rat
  assumes n: "0 < n" "n < 2 ^ 40" and m: "0 \<le> m" "m \<le> n"
    and x: "\<bar>x - 100 * of_int m / of_int n\<bar> \<le> 1 / 2 ^ 47"
  shows "\<bar>of_int (round_half_even (10 * x)) / 10 - 100 * of_int m / of_int n\<bar> \<le> (1 / 20 :: rat)"
proof -
  define k where "k = round_half_even (10 * x)"
  define q :: rat where "q = 100 * of_int m / of_int n"
  define d :: int where "d = 2 * n * k - 2000 * m"
  have npos: "0 < (of_int n :: rat)"
    using n by simp
  have h1: "\<bar>of_int k - 10 * x\<bar> \<le> 1 / 2"
    unfolding k_def by (rule round_half_even_bound)
  have "10 * x - 10 * q = 10 * (x - q)"
    by simp
  then have "\<bar>10 * x - 10 * q\<bar> = 10 * \<bar>x - q\<bar>"
    by (simp only: abs_mult abs_numeral)
  then have h2: "\<bar>10 * x - 10 * q\<bar> \<le> 10 / 2 ^ 47"
    using x unfolding q_def by simp
  have h3: "\<bar>of_int k - 10 * q\<bar> \<le> 1 / 2 + 10 / 2 ^ 47"
    using h1 h2 by linarith
  have dq: "of_int d = 2 * of_int n * (of_int k - 10 * q)"
    using npos by (simp add: d_def q_def field_simps)
  have "\<bar>of_int d :: rat\<bar> = 2 * of_int n * \<bar>of_int k - 10 * q\<bar>"
    using npos by (simp add: dq abs_mult)
  also have "\<dots> \<le> 2 * of_int n * (1 / 2 + 10 / 2 ^ 47)"
    using h3 npos by (simp add: mult_left_mono)
  also have "\<dots> = of_int n + of_int (20 * n) / 2 ^ 47"
    by (simp add: field_simps)
  also have "\<dots> < of_int n + 1"
  proof -
    have "20 * n < 2 ^ 47"
      using n by simp
    then have "(of_int (20 * n) :: rat) < of_int (2 ^ 47)"
      by (simp only: of_int_less_iff)
    then have "(of_int (20 * n) :: rat) / 2 ^ 47 < 1"
      by simp
    then show ?thesis by simp
  qed
  finally have "(of_int \<bar>d\<bar> :: rat) < of_int (n + 1)"
    by simp
  then have "\<bar>d\<bar> < n + 1"
    by (simp only: of_int_less_iff)
  then have "\<bar>d\<bar> \<le> n"
    by simp
  then have "(of_int \<bar>d\<bar> :: rat) \<le> of_int n"
    by (simp only: of_int_le_iff)
  then have "2 * of_int n * \<bar>of_int k - 10 * q\<bar> \<le> of_int n * 1"
    using npos by (simp add: dq abs_mult)
  then have "2 * \<bar>of_int k - 10 * q\<bar> \<le> (1::rat)"
    using npos by (simp only: mult.assoc mult_le_cancel_left_pos mult.left_commute [of 2])
  moreover have "of_int k / 10 - q = (of_int k - 10 * q) / 10"
    by simp
  then have "\<bar>of_int k / 10 - q\<bar> = \<bar>of_int k - 10 * q\<bar> / 10"
    by (simp only: abs_divide abs_numeral)
  ultimately have "\<bar>of_int k / 10 - q\<bar> \<le> 1 / 20"
    by linarith
  then show ?thesis
    by (simp only: k_def q_def)
qed

lemma score_value:
  fixes m n :: nat
  assumes n: "0 < n" "n < 2 ^ 40" and m: "m \<le> n"
  shows "\<exists>k :: int.
      round1 (float_div (float_mul 100 (float_of_int (int m))) (float_of_int (int n)))
        = to_double (of_int k / 10)
      \<and> \<bar>of_int k / 10 - 100 * of_nat m / of_nat n\<bar> \<le> (1 / 20 :: rat)"
proof -
  define q :: rat where "q = 100 * of_int (int m) / of_int (int n)"
  have n53: "int n < 2 ^ 53" "int m < 2 ^ 53" "100 * int m < 2 ^ 53"
    using n m by simp_all
  have fm: "float_of_int (int m) = of_int (int m)"
    unfolding float_of_int_def by (rule to_double_of_int) (use n53 in simp_all)
  have fn: "float_of_int (int n) = of_int (int n)"
    unfolding float_of_int_def by (rule to_double_of_int) (use n53 in simp_all)
  have "to_double (of_int (100 * int m)) = of_int (100 * int m)"
    by (rule to_double_of_int) (use n53 in simp_all)
  moreover have "100 * (of_int (int m) :: rat) = of_int (100 * int m)"
    by simp
  ultimately have fmul: "float_mul 100 (of_int (int m)) = of_int (100 * int m)"
    by (simp only: float_mul_def)
  have fdiv: "float_div (float_mul 100 (float_of_int (int m))) (float_of_int (int n)) = to_double q"
    by (simp only: fm fn fmul float_div_def q_def) simp
  have err: "\<bar>to_double q - q\<bar> \<le> 1 / 2 ^ 47"
  proof (cases "m = 0")
    case True
    then show ?thesis by (simp add: q_def to_double_def)
  next
    case False
    then have qpos: "0 < q"
      using n by (simp add: q_def)
    have "q \<le> 100"
      using n m by (simp add: q_def field_simps)
    then have "q < 2 powi 7"
      by simp
    from to_double_error [OF qpos this] show ?thesis
      by (simp add: power_int_minus_divide)
  qed
  have "\<bar>of_int (round_half_even (10 * to_double q)) / 10 - q\<bar> \<le> 1 / 20"
    unfolding q_def
    by (rule round_tenth_nearest) (use n m err in \<open>simp_all add: q_def\<close>)
  then show ?thesis
    by (intro exI [of _ "round_half_even (10 * to_double q)"])
       (simp add: fdiv round1_def q_def)
qed

lemma fst_match_and_score:
  "set (map lower (jd_skills j)) \<noteq> {} \<Longrightarrow>
   fst (match_and_score r j) =
     round1 (float_div
       (float_mul 100 (float_of_int (int (card (set (map lower (skills r)) \<inter> set (map lower (jd_skills j)))))))
       (float_of_int (int (card (set (map lower (jd_skills j)))))))"
  by (simp add: match_and_score_def Let_def)

text \<open>
  C3: with an empty lowercased set of job-description skills the result is \<open>(0.0, [])\<close>.
  Otherwise \<open>missing\<close> is the ascending sorted enumeration of the lowercased
  job-description skills that are not lowercased resume skills, and the score is the double
  nearest to a decimal \<open>k / 10\<close> that lies within one twentieth of
  \<open>100 * |intersection| / |jd skills|\<close>, that is, the quotient rounded to one decimal
  place. The bound of \<open>2 ^ 40\<close> skills keeps the error of the float division below the
  distance to the next rounding boundary; no list in memory reaches it. For the resume
  skills Python, SQL and the job-description skills python, Java, SQL the result is the
  double written \<open>66.7\<close> and the list with \<open>java\<close>.
\<close>

theorem match_and_score_spec:
  "(set (map lower (jd_skills j)) = {} \<longrightarrow> match_and_score r j = (0, []))
   \<and> (set (map lower (jd_skills j)) \<noteq> {} \<longrightarrow>
        snd (match_and_score r j)
          = sorted_list_of_set (set (map lower (jd_skills j)) - set (map lower (skills r)))
        \<and> sorted (snd (match_and_score r j))
        \<and> distinct (snd (match_and_score r j))
        \<and> set (snd (match_and_score r j))
            = set (map lower (jd_skills j)) - set (map lower (skills r))
        \<and> (card (set (map lower (jd_skills j))) < 2 ^ 40 \<longrightarrow>
             (\<exists>k :: int.
                fst (match_and_score r j) = to_double (of_int k / 10)
                \<and> \<bar>of_int k / 10
                     - 100 * of_nat (card (set (map lower (skills r)) \<inter> set (map lower (jd_skills j))))
                       / of_nat (card (set (map lower (jd_skills j))))\<bar> \<le> (1 / 20 :: rat))))
   \<and> match_and_score
        \<lparr>summary = [], skills = [''Python'', ''SQL''], experience = []\<rparr>
        \<lparr>title = [], jd_skills = [''python'', ''Java'', ''SQL''], responsibilities = []\<rparr>
      = (to_double (667 / 10), [''java''])"
proof -
  let ?J = "set (map lower (jd_skills j))"
  let ?R = "set (map lower (skills r))"
  have a: "match_and_score r j = (0, [])" if "?J = {}"
    using that by (simp add: match_and_score_def Let_def)
  have b: "\<exists>k :: int. fst (match_and_score r j) = to_double (of_int k / 10)
      \<and> \<bar>of_int k / 10 - 100 * of_nat (card (?R \<inter> ?J)) / of_nat (card ?J)\<bar> \<le> (1 / 20 :: rat)"
    if ne: "?J \<noteq> {}" and bd: "card ?J < 2 ^ 40"
  proof -
    have "0 < card ?J"
      using ne by (simp add: card_gt_0_iff)
    moreover have "card (?R \<inter> ?J) \<le> card ?J"
      by (simp add: card_mono)
    ultimately show ?thesis
      using score_value [of "card ?J" "card (?R \<inter> ?J)"] bd
      by (simp only: fst_match_and_score [OF ne])
  qed
  have c: "match_and_score
        \<lparr>summary = [], skills = [''Python'', ''SQL''], experience = []\<rparr>
        \<lparr>title = [], jd_skills = [''python'', ''Java'', ''SQL''], responsibilities = []\<rparr>
      = (to_double (667 / 10), [''java''])"
    by code_simp
  have d: "sorted (snd (match_and_score r j))" "distinct (snd (match_and_score r j))"
    "set (snd (match_and_score r j)) = ?J - ?R"
    by (simp_all add: snd_match_and_score)
  from a b c d show ?thesis
    by (simp only: snd_match_and_score) blast
qed

theorem match_and_score_spec_witness:
  "set (map lower (jd_skills \<lparr>title = [], jd_skills = [''python'', ''Java'', ''SQL''], responsibilities = []\<rparr>)) \<noteq> {}
   \<and> card (set (map lower (jd_skills \<lparr>title = [], jd_skills = [''python'', ''Java'', ''SQL''], responsibilities = []\<rparr>))) < 2 ^ 40
   \<and> (\<exists>k :: int.
        fst (match_and_score
              \<lparr>summary = [], skills = [''Python'', ''SQL''], experience = []\<rparr>
              \<lparr>title = [], jd_skills = [''python'', ''Java'', ''SQL''], responsibilities = []\<rparr>)
          = to_double (of_int k / 10)
        \<and> \<bar>of_int k / 10 - 100 * of_nat 2 / of_nat 3\<bar> \<le> (1 / 20 :: rat))
   \<and> set (map lower (jd_skills \<lparr>title = ''Engineer'', jd_skills = [], responsibilities = []\<rparr>)) = {}
   \<and> match_and_score
        \<lparr>summary = [], skills = [''Python'', ''SQL''], experience = []\<rparr>
        \<lparr>title = ''Engineer'', jd_skills = [], responsibilities = []\<rparr> = (0, [])"
proof -
  let ?r = "\<lparr>summary = [], skills = [''Python'', ''SQL''], experience = []\<rparr>"
  let ?j = "\<lparr>title = [], jd_skills = [''python'', ''Java'', ''SQL''], responsibilities = []\<rparr>"
  let ?e = "\<lparr>title = ''Engineer'', jd_skills = [], responsibilities = []\<rparr>"
  have ne: "set (map lower (jd_skills ?j)) \<noteq> {}"
    by code_simp
  have cj: "card (set (map lower (jd_skills ?j))) = 3"
    by code_simp
  have cm: "card (set (map lower (skills ?r)) \<inter> set (map lower (jd_skills ?j))) = 2"
    by code_simp
  have bd: "card (set (map lower (jd_skills ?j))) < 2 ^ 40"
    by (simp only: cj) simp
  have e: "set (map lower (jd_skills ?e)) = {}"
    by code_simp
  from match_and_score_spec [of ?j ?r] ne bd
  have "\<exists>k :: int. fst (match_and_score ?r ?j) = to_double (of_int k / 10)
      \<and> \<bar>of_int k / 10
           - 100 * of_nat (card (set (map lower (skills ?r)) \<inter> set (map lower (jd_skills ?j))))
             / of_nat (card (set (map lower (jd_skills ?j))))\<bar> \<le> (1 / 20 :: rat)"
    by blast
  then have x: "\<exists>k :: int. fst (match_and_score ?r ?j) = to_double (of_int k / 10)
      \<and> \<bar>of_int k / 10 - 100 * of_nat 2 / of_nat 3\<bar> \<le> (1 / 20 :: rat)"
    by (simp only: cj cm)
  from match_and_score_spec [of ?e ?r] e
  have z: "match_and_score ?r ?e = (0, [])"
    by blast
  from ne bd x e z show ?thesis
    by blast
qed

section \<open>Properties of the skills block\<close>

lemma strip_self:
  assumes "s \<noteq> []" and "\<not> isspace (hd s)" and "\<not> isspace (last s)"
  shows "strip s = s"
proof -
  have l: "dropWhile isspace s = s"
    using assms by (simp add: dropWhile_eq_self_iff)
  have "dropWhile isspace (rev s) = rev s"
    using assms by (simp add: dropWhile_eq_self_iff hd_rev)
  then show ?thesis
    by (simp add: strip_def strip_by_def lstrip_by_def rstrip_by_def l)
qed

lemma strip_space_Cons: "isspace c \<Longrightarrow> strip (c # s) = strip s"
  by (simp add: strip_def strip_by_def lstrip_by_def)

lemma isspace_blank: "isspace CHR '' ''"
  by code_simp

lemma splitlines_from_line:
  assumes "\<forall>c \<in> set s. \<not> is_linebreak c"
  shows "splitlines_from cur (s @ CHR 0x0A # rest) = (cur @ s) # splitlines_from [] rest"
  using assms
proof (induction s arbitrary: cur)
  case Nil
  have nl: "is_linebreak (CHR 0x0A)" "CHR 0x0A \<noteq> CHR 0x0D"
    by code_simp+
  show ?case
    using nl by (cases rest) simp_all
next
  case (Cons c s)
  have cr: "is_linebreak (CHR 0x0D)"
    by code_simp
  from Cons.prems have c: "\<not> is_linebreak c" and s: "\<forall>c \<in> set s. \<not> is_linebreak c"
    by simp_all
  from c cr have ncr: "c \<noteq> CHR 0x0D"
    by auto
  obtain d ds where ds: "s @ CHR 0x0A # rest = d # ds"
    by (cases "s @ CHR 0x0A # rest") simp_all
  have "splitlines_from cur ((c # s) @ CHR 0x0A # rest) = splitlines_from cur (c # d # ds)"
    by (simp add: ds)
  also have "\<dots> = splitlines_from (cur @ [c]) (d # ds)"
    using c ncr by simp
  also have "\<dots> = ((cur @ [c]) @ s) # splitlines_from [] rest"
    unfolding ds [symmetric] using s by (rule Cons.IH)
  finally show ?case by simp
qed

lemma split_on_no_delim:
  "\<forall>c \<in> set t. \<not> p c \<Longrightarrow> split_on p (t @ rest) = (t @ hd (split_on p rest)) # tl (split_on p rest)"
proof (induction t)
  case Nil
  have "split_on p rest \<noteq> []"
    by (cases rest) (simp_all split: list.split)
  then show ?case by simp
next
  case (Cons c t)
  then show ?case by (simp split: list.split)
qed

lemma split_on_token: "\<forall>c \<in> set t. \<not> p c \<Longrightarrow> split_on p t = [t]"
  using split_on_no_delim [of t p "[]"] by simp

lemma split_on_join:
  assumes "\<forall>t \<in> set (x # xs). \<forall>c \<in> set t. \<not> is_delim c"
  shows "split_on is_delim (join '', '' (x # xs)) = x # map (\<lambda>t. CHR '' '' # t) xs"
  using assms
proof (induction xs arbitrary: x)
  case Nil
  then show ?case by (simp add: split_on_token)
next
  case (Cons y ys)
  have d: "is_delim CHR '',''" "\<not> is_delim CHR '' ''"
    by (simp_all add: is_delim_def)
  from Cons.prems have x: "\<forall>c \<in> set x. \<not> is_delim c"
    and r: "\<forall>t \<in> set (y # ys). \<forall>c \<in> set t. \<not> is_delim c"
    by simp_all
  have ih: "split_on is_delim (join '', '' (y # ys)) = y # map (\<lambda>t. CHR '' '' # t) ys"
    using r by (rule Cons.IH)
  have sp: "split_on is_delim (CHR '' '' # join '', '' (y # ys))
      = (CHR '' '' # y) # map (\<lambda>t. CHR '' '' # t) ys"
    using d ih by simp
  have "split_on is_delim (x @ CHR '','' # CHR '' '' # join '', '' (y # ys))
      = x # (CHR '' '' # y) # map (\<lambda>t. CHR '' '' # t) ys"
    using split_on_no_delim [OF x, of "CHR '','' # CHR '' '' # join '', '' (y # ys)"] d sp
    by simp
  then show ?case by simp
qed

lemma skill_tokens_join:
  assumes "\<forall>t \<in> set (x # xs). t \<noteq> [] \<and> \<not> isspace (hd t) \<and> \<not> isspace (last t)
      \<and> (\<forall>c \<in> set t. \<not> is_delim c)"
  shows "skill_tokens (join '', '' (x # xs)) = x # xs"
proof -
  have s: "\<forall>t \<in> set (x # xs). strip t = t \<and> t \<noteq> []"
    using assms by (auto intro: strip_self)
  have "map strip (x # map (\<lambda>t. CHR '' '' # t) xs) = x # xs"
    using s by (simp add: strip_space_Cons isspace_blank map_idI)
  moreover have "split_on is_delim (join '', '' (x # xs)) = x # map (\<lambda>t. CHR '' '' # t) xs"
    using assms by (intro split_on_join) simp
  ultimately have "skill_tokens (join '', '' (x # xs)) = filter (\<lambda>v. v \<noteq> []) (x # xs)"
    by (simp only: skill_tokens_def)
  also have "\<dots> = x # xs"
    using s by (simp add: filter_id_conv)
  finally show ?thesis .
qed

lemma join_props:
  assumes "\<forall>t \<in> set (x # xs). t \<noteq> []"
  shows "join '', '' (x # xs) \<noteq> []"
    and "hd (join '', '' (x # xs)) = hd x"
    and "last (join '', '' (x # xs)) = last (last (x # xs))"
  using assms by (induction xs arbitrary: x) simp_all

lemma set_join: "set (join sep xs) \<subseteq> set sep \<union> \<Union> (set ` set xs)"
  by (induction sep xs rule: join.induct) auto

lemma lines_of_skills_block:
  assumes "j \<noteq> []" and "\<not> isspace (hd j)" and "\<not> isspace (last j)"
    and "\<forall>c \<in> set j. \<not> is_linebreak c"
  shows "lines_of (''Skills:'' @ [CHR 0x0A] @ j @ [CHR 0x0A]) = [''Skills:'', j]"
proof -
  have h: "\<forall>c \<in> set ''Skills:''. \<not> is_linebreak c"
    by code_simp
  have "splitlines (''Skills:'' @ [CHR 0x0A] @ j @ [CHR 0x0A])
      = splitlines_from [] (''Skills:'' @ CHR 0x0A # (j @ CHR 0x0A # []))"
    by (simp add: splitlines_def)
  also have "\<dots> = ([] @ ''Skills:'') # splitlines_from [] (j @ CHR 0x0A # [])"
    using h by (rule splitlines_from_line)
  also have "splitlines_from [] (j @ CHR 0x0A # []) = ([] @ j) # splitlines_from [] []"
    using assms(4) by (rule splitlines_from_line)
  finally have sl: "splitlines (''Skills:'' @ [CHR 0x0A] @ j @ [CHR 0x0A]) = [''Skills:'', j]"
    by simp
  have s1: "strip ''Skills:'' = ''Skills:''"
    by code_simp
  have s2: "strip j = j"
    using assms(1-3) by (rule strip_self)
  show ?thesis
    unfolding lines_of_def sl using assms(1) by (simp add: s1 s2)
qed

text \<open>
  C2 (amended): the block the renderer emits for a non-empty \<open>add_skills\<close> list is the line
  \<open>Skills:\<close> and the line of the tokens joined by a comma and a blank. When every token is
  non-empty, begins and ends with a character that is not whitespace, holds none of
  \<open>;\<close>, \<open>,\<close>, \<open>|\<close> and no line boundary, and the joined line is not itself a section
  header, parsing the block gives back the same tokens in the same order.
\<close>

theorem skills_block_roundtrip:
  assumes "xs \<noteq> []"
    and "\<forall>t \<in> set xs. t \<noteq> [] \<and> \<not> isspace (hd t) \<and> \<not> isspace (last t)
            \<and> (\<forall>c \<in> set t. \<not> is_delim c \<and> \<not> is_linebreak c)"
    and "\<not> is_skills_header (lower (join '', '' xs))"
    and "\<not> is_experience_header (lower (join '', '' xs))"
    and "\<not> is_summary_header (lower (join '', '' xs))"
  shows "tailor_resume_text [] \<lparr>suggested_summary = [], add_skills = xs, rewritten_experience = []\<rparr>
           = ''Skills:'' @ [CHR 0x0A] @ join '', '' xs @ [CHR 0x0A]
     \<and> skills (parse_resume
          (tailor_resume_text [] \<lparr>suggested_summary = [], add_skills = xs, rewritten_experience = []\<rparr>))
         = xs"
proof -
  define j where "j = join '', '' xs"
  obtain x ys where xs: "xs = x # ys"
    using assms(1) by (cases xs) simp_all
  have ne: "\<forall>t \<in> set (x # ys). t \<noteq> []"
    using assms(2) xs by simp
  have j1: "j \<noteq> []" and j2: "hd j = hd x" and j3: "last j = last (last xs)"
    unfolding j_def xs using join_props [OF ne] by simp_all
  have "x \<in> set xs" and "last xs \<in> set xs"
    using xs by simp_all
  with assms(2) j2 j3 have j4: "\<not> isspace (hd j)" and j5: "\<not> isspace (last j)"
    by simp_all
  have sep: "\<forall>c \<in> set '', ''. \<not> is_linebreak c"
    by code_simp
  have j6: "\<forall>c \<in> set j. \<not> is_linebreak c"
  proof
    fix c assume "c \<in> set j"
    then have "c \<in> set '', '' \<union> \<Union> (set ` set xs)"
      using set_join [of "'', ''" xs] unfolding j_def by blast
    then show "\<not> is_linebreak c"
      using sep assms(2) by blast
  qed
  have lo: "lines_of [] = []"
    by (simp add: lines_of_def splitlines_def)
  have tx: "tailor_resume_text [] \<lparr>suggested_summary = [], add_skills = xs, rewritten_experience = []\<rparr>
      = ''Skills:'' @ [CHR 0x0A] @ j @ [CHR 0x0A]"
    using assms(1) by (simp add: tailor_resume_text_def tailor_out_def tailor_head_def lo j_def)
  have ls: "lines_of (''Skills:'' @ [CHR 0x0A] @ j @ [CHR 0x0A]) = [''Skills:'', j]"
    using j1 j4 j5 j6 by (rule lines_of_skills_block)
  have hd: "is_skills_header (lower ''Skills:'')"
    by code_simp
  have tk: "skill_tokens j = xs"
    unfolding j_def xs by (rule skill_tokens_join) (use assms(2) xs in simp)
  have "skills (parse_resume (''Skills:'' @ [CHR 0x0A] @ j @ [CHR 0x0A])) = skill_tokens j"
    unfolding parse_resume_def ls using hd assms(3-5) unfolding j_def [symmetric]
    by (simp add: parse_resume_step_def Let_def)
  with tx tk show ?thesis
    by (simp add: j_def)
qed

theorem skills_block_roundtrip_witness:
  "skills (parse_resume
      (tailor_resume_text []
         \<lparr>suggested_summary = [], add_skills = [''java'', ''machine learning''],
            rewritten_experience = []\<rparr>))
     = [''java'', ''machine learning'']"
proof -
  let ?xs = "[''java'', ''machine learning'']"
  have 1: "?xs \<noteq> []"
    by simp
  have 2: "\<forall>t \<in> set ?xs. t \<noteq> [] \<and> \<not> isspace (hd t) \<and> \<not> isspace (last t)
            \<and> (\<forall>c \<in> set t. \<not> is_delim c \<and> \<not> is_linebreak c)"
    by code_simp
  have 3: "\<not> is_skills_header (lower (join '', '' ?xs))"
    by code_simp
  have 4: "\<not> is_experience_header (lower (join '', '' ?xs))"
    by code_simp
  have 5: "\<not> is_summary_header (lower (join '', '' ?xs))"
    by code_simp
  from skills_block_roundtrip [OF 1 2 3 4 5] show ?thesis
    by (rule conjunct2)
qed

text \<open>
  C2 (as stated): a token may hold a semicolon. The job description with the line
  \<open>Git; Docker, SQL\<close> gives the missing skills \<open>git; docker\<close> and \<open>sql\<close>; the block
  rendered from them parses into three tokens, not the two that were inserted.
\<close>

theorem skills_block_roundtrip_counterexample:
  "add_skills (suggest_resume_updates (parse_resume [])
       (parse_jd ''Developer\<newline>Git; Docker, SQL'') 6) = [''git; docker'', ''sql'']
   \<and> skills (parse_resume
        (tailor_resume_text []
           \<lparr>suggested_summary = [], add_skills = [''git; docker'', ''sql''],
              rewritten_experience = []\<rparr>))
       = [''git'', ''docker'', ''sql'']
   \<and> [''git'', ''docker'', ''sql''] \<noteq> [''git; docker'', ''sql'']"
  by code_simp

end
